theory Spec2Isabelle
  imports Main
begin

section \<open>Lotto mapper: covering-design blocks, hit counting and prize summary\<close>

text \<open>
  A shallow embedding of \<^verbatim>\<open>lotto_mapper.py\<close>. Python integers are \<open>int\<close>, Python lists
  are HOL lists, a \<^verbatim>\<open>dict\<close> is an association list in insertion order, and every
  exception or \<^verbatim>\<open>st.stop()\<close> of the script is a value of a sum type. A string is the
  list of its code points.
\<close>

subsection \<open>Python primitives used by the script\<close>

text \<open>List subscript \<^verbatim>\<open>xs[i]\<close>: a negative index counts from the end, anything outside
  \<^verbatim>\<open>-len(xs) <= i < len(xs)\<close> raises IndexError (here \<open>None\<close>).\<close>

definition py_index :: "'a list \<Rightarrow> int \<Rightarrow> 'a option" where
  "py_index xs i =
     (if 0 \<le> i \<and> i < int (length xs) then Some (xs ! nat i)
      else if - int (length xs) \<le> i \<and> i < 0 then Some (xs ! nat (int (length xs) + i))
      else None)"

text \<open>\<^verbatim>\<open>d.get(k, default)\<close> and \<^verbatim>\<open>d[k] = v\<close> on a dict kept as an association list: an
  existing key keeps its place, a new key goes to the end.\<close>

definition dict_get :: "('k \<times> 'v) list \<Rightarrow> 'k \<Rightarrow> 'v \<Rightarrow> 'v" where
  "dict_get d k dflt = (case map_of d k of None \<Rightarrow> dflt | Some v \<Rightarrow> v)"

fun dict_set :: "('k \<times> 'v) list \<Rightarrow> 'k \<Rightarrow> 'v \<Rightarrow> ('k \<times> 'v) list" where
  "dict_set [] k v = [(k, v)]"
| "dict_set ((k', v') # d) k v = (if k' = k then (k, v) # d else (k', v') # dict_set d k v)"

text \<open>Truthiness of the value \<^verbatim>\<open>map_user_numbers\<close> returns: \<^verbatim>\<open>None\<close> and the empty list are
  false.\<close>

fun truthy :: "'a list option \<Rightarrow> bool" where
  "truthy None = False"
| "truthy (Some xs) = (xs \<noteq> [])"

subsection \<open>Mapping block positions onto the user's numbers\<close>

text \<open>\<^verbatim>\<open>map_user_numbers\<close>: the comprehension \<^verbatim>\<open>[user_numbers[i - 1] for i in block]\<close>,
  evaluated left to right; an IndexError anywhere makes the function return \<^verbatim>\<open>None\<close>.\<close>

fun map_user_numbers :: "int list \<Rightarrow> int list \<Rightarrow> int list option" where
  "map_user_numbers user_numbers [] = Some []"
| "map_user_numbers user_numbers (i # block) =
     (case py_index user_numbers (i - 1) of
        None \<Rightarrow> None
      | Some x \<Rightarrow>
          (case map_user_numbers user_numbers block of
             None \<Rightarrow> None
           | Some xs \<Rightarrow> Some (x # xs)))"

text \<open>The guard \<^verbatim>\<open>all(1 <= i <= v for i in blk)\<close> of the classification loop.\<close>

definition in_range :: "int \<Rightarrow> int list \<Rightarrow> bool" where
  "in_range v blk = list_all (\<lambda>i. 1 \<le> i \<and> i \<le> v) blk"

record classified =
  mapped_blocks :: "int list list"
  invalid_blocks :: "int list list"

text \<open>One iteration of \<^verbatim>\<open>for blk in blocks\<close>, with \<^verbatim>\<open>v = len(user_numbers)\<close>.\<close>

definition classify_step :: "int list \<Rightarrow> classified \<Rightarrow> int list \<Rightarrow> classified" where
  "classify_step user_numbers st blk =
     (if in_range (int (length user_numbers)) blk then
        (let mapped = map_user_numbers user_numbers blk in
         if truthy mapped then st\<lparr>mapped_blocks := mapped_blocks st @ [the mapped]\<rparr> else st)
      else st\<lparr>invalid_blocks := invalid_blocks st @ [blk]\<rparr>)"

fun classify_loop :: "int list \<Rightarrow> int list list \<Rightarrow> classified \<Rightarrow> classified" where
  "classify_loop user_numbers [] st = st"
| "classify_loop user_numbers (blk # blocks) st =
     classify_loop user_numbers blocks (classify_step user_numbers st blk)"

definition classify_blocks :: "int list \<Rightarrow> int list list \<Rightarrow> classified" where
  "classify_blocks user_numbers blocks =
     classify_loop user_numbers blocks \<lparr>mapped_blocks = [], invalid_blocks = []\<rparr>"

text \<open>The list a block stands for when every position is within \<open>[1, v]\<close>.\<close>

definition lookup_positions :: "int list \<Rightarrow> int list \<Rightarrow> int list" where
  "lookup_positions base_numbers block = map (\<lambda>p. base_numbers ! nat (p - 1)) block"

subsection \<open>Scoring mapped blocks against the draw\<close>

text \<open>\<^verbatim>\<open>hits = sorted(set(block) & set(draw_numbers))\<close>.\<close>

definition block_hits :: "int list \<Rightarrow> int list \<Rightarrow> int list" where
  "block_hits block draw_numbers = sorted_list_of_set (set block \<inter> set draw_numbers)"

record scored =
  hit_blocks :: "(int \<times> int list \<times> int list) list"
  match_counter :: "(int \<times> int) list"

text \<open>One iteration of \<^verbatim>\<open>for i, block in enumerate(mapped_blocks, start=1)\<close>.\<close>

definition score_step :: "int \<Rightarrow> int list \<Rightarrow> scored \<Rightarrow> int \<Rightarrow> int list \<Rightarrow> scored" where
  "score_step min_hits draw_numbers st i block =
     (let hits = block_hits block draw_numbers;
          count = int (length hits)
      in \<lparr>hit_blocks =
            (if count \<ge> min_hits then hit_blocks st @ [(i, block, hits)] else hit_blocks st),
          match_counter =
            dict_set (match_counter st) count (dict_get (match_counter st) count 0 + 1)\<rparr>)"

fun score_loop :: "int \<Rightarrow> int list \<Rightarrow> int \<Rightarrow> int list list \<Rightarrow> scored \<Rightarrow> scored" where
  "score_loop min_hits draw_numbers i [] st = st"
| "score_loop min_hits draw_numbers i (block # rest) st =
     score_loop min_hits draw_numbers (i + 1) rest (score_step min_hits draw_numbers st i block)"

definition score_blocks :: "int \<Rightarrow> int list \<Rightarrow> int list list \<Rightarrow> scored" where
  "score_blocks min_hits draw_numbers mapped =
     score_loop min_hits draw_numbers 1 mapped \<lparr>hit_blocks = [], match_counter = []\<rparr>"

text \<open>Every count of a histogram is at least 0.\<close>

definition counts_nonneg :: "(int \<times> int) list \<Rightarrow> bool" where
  "counts_nonneg d = list_all (\<lambda>kv. 0 \<le> snd kv) d"

subsection \<open>Prize summary\<close>

definition prize_table :: "(int \<times> int) list" where
  "prize_table = [(5, 24000), (4, 800), (3, 20)]"

definition ticket_price :: int where
  "ticket_price = 20"

record summary =
  six_hit_count :: int
  total_fixed :: int
  total_jackpot :: int
  grand_total :: int
  total_blocks :: int
  total_cost :: int
  net_profit :: int

text \<open>Lines 165 to 173 of the script. \<^verbatim>\<open>prize_table[k]\<close> is read only at the table's own
  keys, so it never raises KeyError. \<open>n_blocks\<close> is \<^verbatim>\<open>len(mapped_blocks)\<close>.\<close>

definition prize_summary :: "(int \<times> int) list \<Rightarrow> int \<Rightarrow> int \<Rightarrow> summary" where
  "prize_summary counter jackpot_amount n_blocks =
     (let six = dict_get counter 6 0;
          fixed = sum_list (map (\<lambda>k. dict_get counter k 0 * the (map_of prize_table k))
                              (map fst prize_table));
          jackpot = six * jackpot_amount;
          grand = fixed + jackpot;
          cost = n_blocks * ticket_price
      in \<lparr>six_hit_count = six, total_fixed = fixed, total_jackpot = jackpot,
          grand_total = grand, total_blocks = n_blocks, total_cost = cost,
          net_profit = grand - cost\<rparr>)"

subsection \<open>Text input\<close>

text \<open>A Python \<^verbatim>\<open>str\<close> is a list of code points, the integers \<^verbatim>\<open>ord\<close> gives; \<open>ascii\<close> writes
  one from a literal.\<close>

type_synonym py_str = "int list"

definition ascii :: "string \<Rightarrow> py_str" where
  "ascii s = map of_char s"

text \<open>What the script takes from the Python interpreter it runs on, beyond the language:
  the decimal digits of the Unicode database outside ASCII, given by the code points of
  their zeros (every zero starts a run of the ten digits 0 to 9), and the limit on the
  number of digits \<^verbatim>\<open>int()\<close> converts (\<^verbatim>\<open>sys.get_int_max_str_digits()\<close>: 4300 unless
  configured, 0 for no limit, and never between 1 and 639).\<close>

record interpreter =
  decimal_zeros :: "int list"
  int_max_str_digits :: nat

text \<open>The decimal value of a code point, if it is a decimal digit.\<close>

definition unicode_decimal :: "interpreter \<Rightarrow> int \<Rightarrow> int option" where
  "unicode_decimal I c =
     (if c < 128 then (if 48 \<le> c \<and> c \<le> 57 then Some (c - 48) else None)
      else map_option (\<lambda>z. c - z) (find (\<lambda>z. z \<le> c \<and> c < z + 10) (decimal_zeros I)))"

text \<open>What \<^verbatim>\<open>\d\<close> matches in a \<^verbatim>\<open>str\<close> pattern.\<close>

definition is_decimal :: "interpreter \<Rightarrow> int \<Rightarrow> bool" where
  "is_decimal I c = (unicode_decimal I c \<noteq> None)"

text \<open>The white space of \<^verbatim>\<open>str.strip()\<close> and \<^verbatim>\<open>str.isspace()\<close>.\<close>

definition is_space :: "int \<Rightarrow> bool" where
  "is_space c = (c \<in> set [0x09, 0x0A, 0x0B, 0x0C, 0x0D, 0x1C, 0x1D, 0x1E, 0x1F, 0x20,
                            0x85, 0xA0, 0x1680,
                            0x2000, 0x2001, 0x2002, 0x2003, 0x2004, 0x2005,
                            0x2006, 0x2007, 0x2008, 0x2009, 0x200A,
                            0x2028, 0x2029, 0x202F, 0x205F, 0x3000])"

definition strip :: "py_str \<Rightarrow> py_str" where
  "strip s = rev (dropWhile is_space (rev (dropWhile is_space s)))"

text \<open>\<^verbatim>\<open>s.split(",")\<close>: the pieces between commas (code point 44), empty pieces included.\<close>

fun split_comma :: "py_str \<Rightarrow> py_str list" where
  "split_comma [] = [[]]"
| "split_comma (c # cs) =
     (if c = 44 then [] # split_comma cs
      else (case split_comma cs of
              [] \<Rightarrow> [[c]]
            | t # ts \<Rightarrow> (c # t) # ts))"

text \<open>\<^verbatim>\<open>int(s)\<close> first rewrites the string to ASCII: a code point below 127 stays, other
  white space becomes a space, another decimal digit becomes the ASCII digit of its
  value, and at anything else the string ends with a question mark.\<close>

fun to_ascii :: "interpreter \<Rightarrow> py_str \<Rightarrow> py_str" where
  "to_ascii I [] = []"
| "to_ascii I (c # cs) =
     (if c < 127 then c # to_ascii I cs
      else if is_space c then 32 # to_ascii I cs
      else (case unicode_decimal I c of
              Some d \<Rightarrow> (48 + d) # to_ascii I cs
            | None \<Rightarrow> [63]))"

text \<open>The white space the integer parser skips: tab to carriage return, and space.\<close>

definition c_isspace :: "int \<Rightarrow> bool" where
  "c_isspace c = (c \<in> set [0x09, 0x0A, 0x0B, 0x0C, 0x0D, 0x20])"

definition is_ascii_digit :: "int \<Rightarrow> bool" where
  "is_ascii_digit c = (48 \<le> c \<and> c \<le> 57)"

definition decimal :: "py_str \<Rightarrow> int" where
  "decimal ds = foldl (\<lambda>a c. 10 * a + (c - 48)) 0 ds"

text \<open>The digit part of an integer literal: digits, with single underscores (code point
  95) allowed between two digits.\<close>

fun digits_ok :: "py_str \<Rightarrow> bool" where
  "digits_ok [] = False"
| "digits_ok [c] = is_ascii_digit c"
| "digits_ok (c # d # cs) =
     (is_ascii_digit c \<and> (if d = 95 then digits_ok cs else digits_ok (d # cs)))"

text \<open>The integer parser on the ASCII string, base ten: leading white space, one optional
  sign (43 is plus, 45 is minus), the run of digits and underscores, trailing white space,
  and nothing else. More digits than the interpreter's limit are refused. ValueError is
  \<open>None\<close>.\<close>

definition long_from_string :: "interpreter \<Rightarrow> py_str \<Rightarrow> int option" where
  "long_from_string I t =
     (let s1 = dropWhile c_isspace t;
          signed = (s1 \<noteq> [] \<and> (hd s1 = 43 \<or> hd s1 = 45));
          negative = (s1 \<noteq> [] \<and> hd s1 = 45);
          s2 = (if signed then tl s1 else s1);
          run = takeWhile (\<lambda>c. is_ascii_digit c \<or> c = 95) s2;
          rest = dropWhile (\<lambda>c. is_ascii_digit c \<or> c = 95) s2;
          digits = filter is_ascii_digit run
      in if \<not> digits_ok run then None
         else if 0 < int_max_str_digits I \<and> int_max_str_digits I < length digits then None
         else if dropWhile c_isspace rest \<noteq> [] then None
         else Some (if negative then - decimal digits else decimal digits))"

definition py_int :: "interpreter \<Rightarrow> py_str \<Rightarrow> int option" where
  "py_int I s = long_from_string I (to_ascii I s)"

text \<open>A comprehension over optional results: the first \<open>None\<close> (an exception) aborts it.\<close>

fun all_or_none :: "'a option list \<Rightarrow> 'a list option" where
  "all_or_none [] = Some []"
| "all_or_none (None # _) = None"
| "all_or_none (Some x # rest) = map_option ((#) x) (all_or_none rest)"

text \<open>\<^verbatim>\<open>[int(x) for x in text.strip().split(",") if x.strip()]\<close>.\<close>

definition parse_numbers :: "interpreter \<Rightarrow> py_str \<Rightarrow> int list option" where
  "parse_numbers I text =
     all_or_none (map (py_int I) (filter (\<lambda>x. strip x \<noteq> []) (split_comma (strip text))))"

datatype halt =
    NoDesigns
  | DescriptionValueError
  | SampleValueError
  | InvalidInputFormat
  | TooFewNumbers
  | InvalidDrawnFormat
  | NotSixUnique

text \<open>\<^verbatim>\<open>get_v_from_description\<close>: \<^verbatim>\<open>re.match(r"(\d+)", description)\<close> matches the longest
  run of decimal digits at the start of the string, and fails when that run is empty;
  \<^verbatim>\<open>int\<close> converts the run.\<close>

definition get_v_from_description :: "interpreter \<Rightarrow> py_str \<Rightarrow> halt + int" where
  "get_v_from_description I description =
     (let digits = takeWhile (is_decimal I) description in
      if digits \<noteq> [] then
        (case py_int I digits of Some v \<Rightarrow> Inr v | None \<Rightarrow> Inl DescriptionValueError)
      else Inl DescriptionValueError)"

text \<open>The two validation blocks. Every failure ends the run (\<^verbatim>\<open>st.stop()\<close>); the value
  names the check that failed.\<close>

definition read_user_numbers :: "interpreter \<Rightarrow> py_str \<Rightarrow> halt + int list" where
  "read_user_numbers I user_input =
     (case parse_numbers I user_input of
        None \<Rightarrow> Inl InvalidInputFormat
      | Some user_numbers \<Rightarrow>
          if int (length user_numbers) < 6 then Inl TooFewNumbers else Inr user_numbers)"

definition read_draw_numbers :: "interpreter \<Rightarrow> py_str \<Rightarrow> halt + int list" where
  "read_draw_numbers I draw_input =
     (case parse_numbers I draw_input of
        None \<Rightarrow> Inl InvalidDrawnFormat
      | Some draw_numbers \<Rightarrow>
          if length draw_numbers \<noteq> 6 \<or> card (set draw_numbers) \<noteq> 6 then Inl NotSixUnique
          else Inr draw_numbers)"

subsection \<open>One run of the script\<close>

record report =
  classification :: classified
  scoring :: scored
  prizes :: summary

text \<open>The script from top to bottom. \<open>designs\<close> and \<open>blocks\<close> are what the design store
  answers; \<open>selected\<close>, \<open>generate_pressed\<close> (the button that generates base numbers), the
  two input texts, \<open>min_hits\<close> and \<open>jackpot_amount\<close> are what the widgets return. When the
  button is pressed, \<^verbatim>\<open>random.sample(range(1, 43), v_design)\<close> raises ValueError for a
  \<open>v_design\<close> above 42, the size of the range; the sample of the second button, of 6
  numbers, cannot fail and changes nothing in the run.\<close>

definition run_app ::
  "interpreter \<Rightarrow> py_str list \<Rightarrow> py_str \<Rightarrow> bool \<Rightarrow> int list list \<Rightarrow> py_str \<Rightarrow> py_str \<Rightarrow>
   int \<Rightarrow> int \<Rightarrow> halt + report" where
  "run_app I designs selected generate_pressed blocks user_input draw_input min_hits
     jackpot_amount =
     (if designs = [] then Inl NoDesigns
      else case get_v_from_description I selected of
        Inl e \<Rightarrow> Inl e
      | Inr v_design \<Rightarrow>
         if generate_pressed \<and> v_design > 42 then Inl SampleValueError
         else
         (case read_user_numbers I user_input of
            Inl e \<Rightarrow> Inl e
          | Inr user_numbers \<Rightarrow>
             (case read_draw_numbers I draw_input of
                Inl e \<Rightarrow> Inl e
              | Inr draw_numbers \<Rightarrow>
                 (let cl = classify_blocks user_numbers blocks;
                      sc = score_blocks min_hits draw_numbers (mapped_blocks cl)
                  in Inr \<lparr>classification = cl, scoring = sc,
                          prizes = prize_summary (match_counter sc) jackpot_amount
                                     (int (length (mapped_blocks cl)))\<rparr>))))"

subsection \<open>Interpreters\<close>

text \<open>The digit runs of a Unicode database lie outside ASCII and hold no white space.\<close>

definition unicode_ok :: "interpreter \<Rightarrow> bool" where
  "unicode_ok I =
     list_all (\<lambda>z. 128 \<le> z \<and> list_all (\<lambda>c. \<not> is_space c) [z..z + 9]) (decimal_zeros I)"

text \<open>An interpreter for the examples: the default digit limit, and the Arabic-Indic,
  Devanagari and fullwidth digits.\<close>

definition example_interpreter :: interpreter where
  "example_interpreter = \<lparr>decimal_zeros = [0x660, 0x966, 0xFF10], int_max_str_digits = 4300\<rparr>"

section \<open>Properties\<close>

subsection \<open>Mapping\<close>

lemma py_index_in_range:
  "1 \<le> p \<Longrightarrow> p \<le> int (length xs) \<Longrightarrow> py_index xs (p - 1) = Some (xs ! nat (p - 1))"
  by (simp add: py_index_def)

lemma py_index_None_iff:
  "py_index xs (p - 1) = None \<longleftrightarrow> p > int (length xs) \<or> p \<le> - int (length xs)"
  by (auto simp: py_index_def)

lemma map_user_numbers_in_range:
  "in_range (int (length base_numbers)) block \<Longrightarrow>
   map_user_numbers base_numbers block = Some (lookup_positions base_numbers block)"
  by (induction block) (simp_all add: in_range_def lookup_positions_def py_index_in_range)

lemma map_user_numbers_None_iff:
  "map_user_numbers base_numbers block = None \<longleftrightarrow>
   (\<exists>p \<in> set block. p > int (length base_numbers) \<or> p \<le> - int (length base_numbers))"
proof (induction block)
  case Nil
  show ?case by simp
next
  case (Cons p block)
  show ?case
  proof (cases "py_index base_numbers (p - 1)")
    case None
    then show ?thesis using py_index_None_iff [of base_numbers p] by simp
  next
    case (Some x)
    then have "\<not> (p > int (length base_numbers) \<or> p \<le> - int (length base_numbers))"
      using py_index_None_iff [of base_numbers p] by simp
    with Some Cons.IH show ?thesis by (auto split: option.splits)
  qed
qed

lemma in_range_iff: "in_range v blk \<longleftrightarrow> (\<forall>p \<in> set blk. 1 \<le> p \<and> p \<le> v)"
  by (simp add: in_range_def list_all_iff)

lemma classify_step_valid:
  "in_range (int (length base_numbers)) blk \<Longrightarrow> blk \<noteq> [] \<Longrightarrow>
   classify_step base_numbers st blk =
     st\<lparr>mapped_blocks := mapped_blocks st @ [lookup_positions base_numbers blk]\<rparr>"
  by (simp add: classify_step_def map_user_numbers_in_range lookup_positions_def)

lemma classify_step_empty: "classify_step base_numbers st [] = st"
  by (simp add: classify_step_def in_range_def)

lemma classify_step_invalid:
  "\<not> in_range (int (length base_numbers)) blk \<Longrightarrow>
   classify_step base_numbers st blk = st\<lparr>invalid_blocks := invalid_blocks st @ [blk]\<rparr>"
  by (simp add: classify_step_def)

lemma classify_loop_eq:
  "classify_loop base_numbers blocks st =
     \<lparr>mapped_blocks = mapped_blocks st @
        map (lookup_positions base_numbers)
          (filter (\<lambda>b. in_range (int (length base_numbers)) b \<and> b \<noteq> []) blocks),
      invalid_blocks = invalid_blocks st @
        filter (\<lambda>b. \<not> in_range (int (length base_numbers)) b) blocks\<rparr>"
proof (induction blocks arbitrary: st)
  case Nil
  show ?case by simp
next
  case (Cons blk blocks)
  consider (bad) "\<not> in_range (int (length base_numbers)) blk"
    | (empty) "blk = []"
    | (good) "in_range (int (length base_numbers)) blk" "blk \<noteq> []"
    by blast
  then show ?case
  proof cases
    case bad
    then show ?thesis by (simp add: Cons.IH classify_step_invalid)
  next
    case empty
    then show ?thesis by (simp add: Cons.IH classify_step_empty in_range_def)
  next
    case good
    then show ?thesis by (simp add: Cons.IH classify_step_valid)
  qed
qed

lemma classify_blocks_eq:
  "classify_blocks base_numbers blocks =
     \<lparr>mapped_blocks = map (lookup_positions base_numbers)
        (filter (\<lambda>b. in_range (int (length base_numbers)) b \<and> b \<noteq> []) blocks),
      invalid_blocks = filter (\<lambda>b. \<not> in_range (int (length base_numbers)) b) blocks\<rparr>"
  by (simp add: classify_blocks_def classify_loop_eq)

text \<open>
  Claim C3 (mapping bounds and order preservation). When every position of a block lies in
  \<open>[1, v]\<close>, with \<open>v\<close> the length of the base list, \<^verbatim>\<open>map_user_numbers\<close> returns the
  list of \<^verbatim>\<open>base_numbers[p-1]\<close> in block order, as long as the block, neither sorted nor
  deduplicated. A block with a position below 1 or above \<open>v\<close> is appended, whole, to the
  invalid blocks and leaves the mapped blocks as they were; over the whole store the
  invalid blocks are exactly those blocks, and the mapped output comes only from the
  non-empty blocks within range. The loop has no failing branch.
\<close>

theorem mapping_bounds_and_order:
  "((\<forall>p \<in> set block. 1 \<le> p \<and> p \<le> int (length base_numbers)) \<longrightarrow>
      map_user_numbers base_numbers block = Some (map (\<lambda>p. base_numbers ! nat (p - 1)) block) \<and>
      length (the (map_user_numbers base_numbers block)) = length block) \<and>
   ((\<exists>p \<in> set bad. p < 1 \<or> p > int (length base_numbers)) \<longrightarrow>
      classify_step base_numbers st bad = st\<lparr>invalid_blocks := invalid_blocks st @ [bad]\<rparr>) \<and>
   invalid_blocks (classify_blocks base_numbers blocks) =
     filter (\<lambda>b. \<exists>p \<in> set b. p < 1 \<or> p > int (length base_numbers)) blocks \<and>
   mapped_blocks (classify_blocks base_numbers blocks) =
     map (\<lambda>b. map (\<lambda>p. base_numbers ! nat (p - 1)) b)
       (filter (\<lambda>b. (\<forall>p \<in> set b. 1 \<le> p \<and> p \<le> int (length base_numbers)) \<and> b \<noteq> []) blocks)"
proof -
  let ?v = "int (length base_numbers)"
  have bad_iff: "(\<exists>p \<in> set b. p < 1 \<or> p > ?v) \<longleftrightarrow> \<not> in_range ?v b" for b
    unfolding in_range_iff by (metis not_le)
  have lk: "lookup_positions base_numbers = (\<lambda>b. map (\<lambda>p. base_numbers ! nat (p - 1)) b)"
    by (rule ext) (simp add: lookup_positions_def)
  have a: "(\<forall>p \<in> set block. 1 \<le> p \<and> p \<le> ?v) \<longrightarrow>
      map_user_numbers base_numbers block = Some (map (\<lambda>p. base_numbers ! nat (p - 1)) block) \<and>
      length (the (map_user_numbers base_numbers block)) = length block"
    using map_user_numbers_in_range [of base_numbers block]
    by (simp add: in_range_iff lookup_positions_def)
  have b: "(\<exists>p \<in> set bad. p < 1 \<or> p > ?v) \<longrightarrow>
      classify_step base_numbers st bad = st\<lparr>invalid_blocks := invalid_blocks st @ [bad]\<rparr>"
    using classify_step_invalid [of base_numbers bad st] by (simp only: bad_iff) simp
  have c: "invalid_blocks (classify_blocks base_numbers blocks) =
     filter (\<lambda>b. \<exists>p \<in> set b. p < 1 \<or> p > ?v) blocks"
    by (simp only: bad_iff) (simp add: classify_blocks_eq)
  have d: "mapped_blocks (classify_blocks base_numbers blocks) =
     map (\<lambda>b. map (\<lambda>p. base_numbers ! nat (p - 1)) b)
       (filter (\<lambda>b. (\<forall>p \<in> set b. 1 \<le> p \<and> p \<le> ?v) \<and> b \<noteq> []) blocks)"
    by (simp add: classify_blocks_eq lk in_range_iff)
  from a b c d show ?thesis by blast
qed

theorem mapping_bounds_and_order_witness:
  "in_range 7 [1, 2, 3, 4, 5, 6] \<and>
   map_user_numbers [10, 20, 30, 40, 50, 60, 70] [1, 2, 3, 4, 5, 6] = Some [10, 20, 30, 40, 50, 60] \<and>
   classify_step [10, 20, 30, 40, 50, 60, 70] \<lparr>mapped_blocks = [], invalid_blocks = []\<rparr> [8, 1, 2, 3, 4, 5]
     = \<lparr>mapped_blocks = [], invalid_blocks = [[8, 1, 2, 3, 4, 5]]\<rparr> \<and>
   classify_blocks [10, 20, 30, 40, 50, 60, 70] [[8, 1, 2, 3, 4, 5], [6, 5, 5, 1, 2, 3]]
     = \<lparr>mapped_blocks = [[60, 50, 50, 10, 20, 30]], invalid_blocks = [[8, 1, 2, 3, 4, 5]]\<rparr>"
  using mapping_bounds_and_order [of "[1, 2, 3, 4, 5, 6]" "[10, 20, 30, 40, 50, 60, 70]"
      "[8, 1, 2, 3, 4, 5]" "\<lparr>mapped_blocks = [], invalid_blocks = []\<rparr>"
      "[[8, 1, 2, 3, 4, 5], [6, 5, 5, 1, 2, 3]]"]
  by (simp add: in_range_def)

lemma py_index_wraps:
  "1 - int (length xs) \<le> p \<Longrightarrow> p \<le> 0 \<Longrightarrow>
   py_index xs (p - 1) = Some (xs ! nat (int (length xs) + p - 1))"
  by (simp add: py_index_def algebra_simps)

lemma map_user_numbers_wraps:
  "\<forall>p \<in> set blk. 1 - int (length base_numbers) \<le> p \<and> p \<le> int (length base_numbers) \<Longrightarrow>
   map_user_numbers base_numbers blk =
     Some (map (\<lambda>p. if 1 \<le> p then base_numbers ! nat (p - 1)
                     else base_numbers ! nat (int (length base_numbers) + p - 1)) blk)"
proof (induction blk)
  case Nil
  show ?case by simp
next
  case (Cons p blk)
  then have tail: "map_user_numbers base_numbers blk =
     Some (map (\<lambda>p. if 1 \<le> p then base_numbers ! nat (p - 1)
                     else base_numbers ! nat (int (length base_numbers) + p - 1)) blk)"
    by simp
  from Cons.prems have p: "1 - int (length base_numbers) \<le> p" "p \<le> int (length base_numbers)"
    by simp_all
  show ?case
  proof (cases "1 \<le> p")
    case True
    with p tail show ?thesis by (simp add: py_index_in_range)
  next
    case False
    with p tail show ?thesis by (simp add: py_index_wraps)
  qed
qed

text \<open>
  Claim C9 (the mapping function alone does not reject non-positive positions). With
  \<open>v\<close> the length of the base list, \<^verbatim>\<open>map_user_numbers\<close> returns \<^verbatim>\<open>None\<close> exactly when some
  position \<open>p\<close> has \<open>p > v\<close> or \<open>p \<le> -v\<close>. A position with \<open>1 - v \<le> p \<le> 0\<close> is read from
  the end of the base list, at index \<open>v + p - 1\<close>; position 0 gives the last element. A
  block with a position below 1 is kept out of the mapped blocks by the range check of
  the calling loop, which appends it to the invalid blocks.
\<close>

theorem map_user_numbers_negative_positions:
  "(map_user_numbers base_numbers block = None \<longleftrightarrow>
      (\<exists>p \<in> set block. p > int (length base_numbers) \<or> p \<le> - int (length base_numbers))) \<and>
   ((\<forall>p \<in> set blk. 1 - int (length base_numbers) \<le> p \<and> p \<le> int (length base_numbers)) \<longrightarrow>
      map_user_numbers base_numbers blk =
        Some (map (\<lambda>p. if 1 \<le> p then base_numbers ! nat (p - 1)
                        else base_numbers ! nat (int (length base_numbers) + p - 1)) blk)) \<and>
   (base_numbers \<noteq> [] \<longrightarrow> map_user_numbers base_numbers [0] = Some [last base_numbers]) \<and>
   ((\<exists>p \<in> set low. p < 1) \<longrightarrow>
      classify_step base_numbers st low = st\<lparr>invalid_blocks := invalid_blocks st @ [low]\<rparr>)"
proof -
  have zero: "base_numbers \<noteq> [] \<longrightarrow> map_user_numbers base_numbers [0] = Some [last base_numbers]"
  proof
    assume ne: "base_numbers \<noteq> []"
    then have "nat (int (length base_numbers) - 1) = length base_numbers - 1"
      and "1 \<le> int (length base_numbers)"
      by (cases base_numbers; simp)+
    with ne show "map_user_numbers base_numbers [0] = Some [last base_numbers]"
      by (simp add: py_index_def last_conv_nth)
  qed
  have low: "(\<exists>p \<in> set low. p < 1) \<longrightarrow>
      classify_step base_numbers st low = st\<lparr>invalid_blocks := invalid_blocks st @ [low]\<rparr>"
  proof
    assume "\<exists>p \<in> set low. p < 1"
    then have "\<not> in_range (int (length base_numbers)) low"
      unfolding in_range_iff by (metis not_le)
    then show "classify_step base_numbers st low = st\<lparr>invalid_blocks := invalid_blocks st @ [low]\<rparr>"
      by (rule classify_step_invalid)
  qed
  show ?thesis
    using map_user_numbers_None_iff [of base_numbers block]
      map_user_numbers_wraps [of blk base_numbers] zero low
    by blast
qed

theorem map_user_numbers_negative_positions_witness:
  "map_user_numbers [10, 20, 30, 40, 50, 60, 70] [- 7, 1, 2, 3, 4, 5] = None \<and>
   map_user_numbers [10, 20, 30, 40, 50, 60, 70] [8, 1, 2, 3, 4, 5] = None \<and>
   map_user_numbers [10, 20, 30, 40, 50, 60, 70] [- 6, 0, 2, 3, 4, 7] = Some [10, 70, 20, 30, 40, 70] \<and>
   map_user_numbers [10, 20, 30, 40, 50, 60, 70] [0] = Some [70] \<and>
   classify_step [10, 20, 30, 40, 50, 60, 70] \<lparr>mapped_blocks = [], invalid_blocks = []\<rparr>
       [- 6, 0, 2, 3, 4, 7]
     = \<lparr>mapped_blocks = [], invalid_blocks = [[- 6, 0, 2, 3, 4, 7]]\<rparr>"
  using map_user_numbers_negative_positions [of "[10, 20, 30, 40, 50, 60, 70]" "[- 7, 1, 2, 3, 4, 5]"
      "[- 6, 0, 2, 3, 4, 7]" "[- 6, 0, 2, 3, 4, 7]" "\<lparr>mapped_blocks = [], invalid_blocks = []\<rparr>"]
    map_user_numbers_negative_positions [of "[10, 20, 30, 40, 50, 60, 70]" "[8, 1, 2, 3, 4, 5]"
      "[]" "[]" "\<lparr>mapped_blocks = [], invalid_blocks = []\<rparr>"]
  by simp

text \<open>
  Claim C10 (block classification is a partition). When every stored block is non-empty,
  each block goes to exactly one list: a block within range is appended, mapped, to the
  mapped blocks, any other block to the invalid blocks. So the two lists together are as
  long as the store's list, and each keeps the store's order: the invalid blocks are the
  out-of-range blocks in order, the mapped blocks the images of the in-range blocks in
  order. This holds for a base list of any length.
\<close>

theorem classification_partition:
  "(\<forall>b \<in> set blocks. b \<noteq> []) \<longrightarrow>
     length (mapped_blocks (classify_blocks base_numbers blocks)) +
       length (invalid_blocks (classify_blocks base_numbers blocks)) = length blocks \<and>
     mapped_blocks (classify_blocks base_numbers blocks) =
       map (lookup_positions base_numbers)
         (filter (\<lambda>b. in_range (int (length base_numbers)) b) blocks) \<and>
     invalid_blocks (classify_blocks base_numbers blocks) =
       filter (\<lambda>b. \<not> in_range (int (length base_numbers)) b) blocks \<and>
     (\<forall>b \<in> set blocks.
        classify_step base_numbers st b =
          (if in_range (int (length base_numbers)) b
           then st\<lparr>mapped_blocks := mapped_blocks st @ [lookup_positions base_numbers b]\<rparr>
           else st\<lparr>invalid_blocks := invalid_blocks st @ [b]\<rparr>))"
proof
  let ?ok = "in_range (int (length base_numbers))"
  assume ne: "\<forall>b \<in> set blocks. b \<noteq> []"
  then have flt: "filter (\<lambda>b. ?ok b \<and> b \<noteq> []) blocks = filter ?ok blocks"
    by (intro filter_cong) auto
  have m: "mapped_blocks (classify_blocks base_numbers blocks) =
       map (lookup_positions base_numbers) (filter ?ok blocks)"
    by (simp add: classify_blocks_eq flt)
  have i: "invalid_blocks (classify_blocks base_numbers blocks) = filter (\<lambda>b. \<not> ?ok b) blocks"
    by (simp add: classify_blocks_eq)
  have len: "length (filter ?ok blocks) + length (filter (\<lambda>b. \<not> ?ok b) blocks) = length blocks"
    by (rule sum_length_filter_compl)
  have step: "\<forall>b \<in> set blocks.
        classify_step base_numbers st b =
          (if ?ok b
           then st\<lparr>mapped_blocks := mapped_blocks st @ [lookup_positions base_numbers b]\<rparr>
           else st\<lparr>invalid_blocks := invalid_blocks st @ [b]\<rparr>)"
    using ne by (simp add: classify_step_valid classify_step_invalid)
  from m i len step
  show "length (mapped_blocks (classify_blocks base_numbers blocks)) +
       length (invalid_blocks (classify_blocks base_numbers blocks)) = length blocks \<and>
     mapped_blocks (classify_blocks base_numbers blocks) =
       map (lookup_positions base_numbers) (filter ?ok blocks) \<and>
     invalid_blocks (classify_blocks base_numbers blocks) = filter (\<lambda>b. \<not> ?ok b) blocks \<and>
     (\<forall>b \<in> set blocks.
        classify_step base_numbers st b =
          (if ?ok b
           then st\<lparr>mapped_blocks := mapped_blocks st @ [lookup_positions base_numbers b]\<rparr>
           else st\<lparr>invalid_blocks := invalid_blocks st @ [b]\<rparr>))"
    by simp
qed

theorem classification_partition_witness:
  "list_all (\<lambda>b. b \<noteq> []) [[8, 1, 2, 3, 4, 5], [1, 2, 3, 4, 5, 6], [0, 1, 2, 3, 4, 5], [7, 7, 1, 2, 3, 4 :: int]] \<and>
   classify_blocks [10, 20, 30, 40, 50, 60, 70]
       [[8, 1, 2, 3, 4, 5], [1, 2, 3, 4, 5, 6], [0, 1, 2, 3, 4, 5], [7, 7, 1, 2, 3, 4]]
     = \<lparr>mapped_blocks = [[10, 20, 30, 40, 50, 60], [70, 70, 10, 20, 30, 40]],
        invalid_blocks = [[8, 1, 2, 3, 4, 5], [0, 1, 2, 3, 4, 5]]\<rparr> \<and>
   length (mapped_blocks (classify_blocks [10, 20, 30, 40, 50, 60, 70]
       [[8, 1, 2, 3, 4, 5], [1, 2, 3, 4, 5, 6], [0, 1, 2, 3, 4, 5], [7, 7, 1, 2, 3, 4]])) +
   length (invalid_blocks (classify_blocks [10, 20, 30, 40, 50, 60, 70]
       [[8, 1, 2, 3, 4, 5], [1, 2, 3, 4, 5, 6], [0, 1, 2, 3, 4, 5], [7, 7, 1, 2, 3, 4]])) = 4"
  using classification_partition [of
      "[[8, 1, 2, 3, 4, 5], [1, 2, 3, 4, 5, 6], [0, 1, 2, 3, 4, 5], [7, 7, 1, 2, 3, 4]]"
      "[10, 20, 30, 40, 50, 60, 70]" "\<lparr>mapped_blocks = [], invalid_blocks = []\<rparr>"]
  by (simp add: in_range_def lookup_positions_def)

subsection \<open>Scoring\<close>

lemma block_hits_set: "set (block_hits block draw_numbers) = set block \<inter> set draw_numbers"
  by (simp add: block_hits_def)

lemma block_hits_length:
  "length (block_hits block draw_numbers) = card (set block \<inter> set draw_numbers)"
  by (simp add: block_hits_def)

lemma dict_get_Cons:
  "dict_get ((k', v') # d) k dflt = (if k' = k then v' else dict_get d k dflt)"
  by (simp add: dict_get_def)

lemma dict_set_bump_sum:
  "sum_list (map snd (dict_set d k (dict_get d k 0 + (1::int)))) = sum_list (map snd d) + 1"
proof (induction d)
  case Nil
  show ?case by (simp add: dict_get_def)
next
  case (Cons kv d)
  obtain k' v' where kv: "kv = (k', v')" by (cases kv)
  show ?case
  proof (cases "k' = k")
    case True
    with kv show ?thesis by (simp add: dict_get_Cons)
  next
    case False
    with kv Cons.IH show ?thesis by (simp add: dict_get_Cons)
  qed
qed

lemma dict_set_key_set: "fst ` set (dict_set d k v) = insert k (fst ` set d)"
proof (induction d)
  case Nil
  show ?case by simp
next
  case (Cons kv d)
  obtain k' v' where kv: "kv = (k', v')" by (cases kv)
  with Cons.IH show ?case by (cases "k' = k") auto
qed

lemma dict_set_distinct: "distinct (map fst d) \<Longrightarrow> distinct (map fst (dict_set d k v))"
proof (induction d)
  case Nil
  show ?case by simp
next
  case (Cons kv d)
  obtain k' v' where kv: "kv = (k', v')" by (cases kv)
  from Cons.prems kv have fresh: "k' \<notin> fst ` set d" and rest: "distinct (map fst d)"
    by simp_all
  show ?case
  proof (cases "k' = k")
    case True
    with kv fresh rest show ?thesis by simp
  next
    case False
    with kv fresh rest Cons.IH show ?thesis by (simp add: dict_set_key_set)
  qed
qed

lemma match_counter_score_step:
  "match_counter (score_step min_hits draw_numbers st i block) =
     dict_set (match_counter st) (int (card (set block \<inter> set draw_numbers)))
       (dict_get (match_counter st) (int (card (set block \<inter> set draw_numbers))) 0 + 1)"
  by (simp add: score_step_def Let_def block_hits_length)

lemma score_loop_counter_sum:
  "sum_list (map snd (match_counter (score_loop min_hits draw_numbers i mapped st))) =
     sum_list (map snd (match_counter st)) + int (length mapped)"
proof (induction mapped arbitrary: i st)
  case Nil
  show ?case by simp
next
  case (Cons block rest)
  show ?case
    by (simp add: Cons.IH match_counter_score_step dict_set_bump_sum)
qed

lemma score_loop_counter_distinct:
  "distinct (map fst (match_counter st)) \<Longrightarrow>
   distinct (map fst (match_counter (score_loop min_hits draw_numbers i mapped st)))"
proof (induction mapped arbitrary: i st)
  case Nil
  then show ?case by simp
next
  case (Cons block rest)
  have "distinct (map fst (match_counter (score_step min_hits draw_numbers st i block)))"
    using Cons.prems by (simp only: match_counter_score_step dict_set_distinct)
  then show ?case by (simp add: Cons.IH)
qed

lemma score_loop_counter_indep:
  "match_counter st1 = match_counter st2 \<Longrightarrow>
   match_counter (score_loop m1 draw_numbers i mapped st1) =
   match_counter (score_loop m2 draw_numbers j mapped st2)"
proof (induction mapped arbitrary: i j st1 st2)
  case Nil
  then show ?case by simp
next
  case (Cons block rest)
  have "match_counter (score_step m1 draw_numbers st1 i block) =
        match_counter (score_step m2 draw_numbers st2 j block)"
    using Cons.prems by (simp add: match_counter_score_step)
  then show ?case by (simp add: Cons.IH)
qed

lemma score_blocks_counter_indep:
  "match_counter (score_blocks m1 draw_numbers mapped) =
   match_counter (score_blocks m2 draw_numbers mapped)"
  unfolding score_blocks_def by (rule score_loop_counter_indep) simp

text \<open>
  Claim C4 (intersection correctness). The hit list of a mapped block is the set
  intersection of the block's values with the drawn numbers, in increasing order and
  without repetition; the hit count is the cardinality of that intersection and is the
  key the scoring step counts under. A value repeated in the block does not change the
  hits, and the count never exceeds the number of drawn numbers.
\<close>

theorem intersection_correctness:
  "set (block_hits block draw_numbers) = set block \<inter> set draw_numbers \<and>
   sorted (block_hits block draw_numbers) \<and>
   distinct (block_hits block draw_numbers) \<and>
   length (block_hits block draw_numbers) = card (set block \<inter> set draw_numbers) \<and>
   block_hits (x # x # block) draw_numbers = block_hits (x # block) draw_numbers \<and>
   block_hits (remdups block) draw_numbers = block_hits block draw_numbers \<and>
   length (block_hits block draw_numbers) \<le> length draw_numbers \<and>
   match_counter (score_step min_hits draw_numbers st i block) =
     dict_set (match_counter st) (int (card (set block \<inter> set draw_numbers)))
       (dict_get (match_counter st) (int (card (set block \<inter> set draw_numbers))) 0 + 1)"
proof -
  have "card (set block \<inter> set draw_numbers) \<le> card (set draw_numbers)"
    by (simp add: card_mono)
  also have "\<dots> \<le> length draw_numbers"
    by (rule card_length)
  finally have bound: "length (block_hits block draw_numbers) \<le> length draw_numbers"
    by (simp add: block_hits_length)
  have srt: "sorted (block_hits block draw_numbers)" "distinct (block_hits block draw_numbers)"
    by (simp_all add: block_hits_def)
  have dup: "block_hits (x # x # block) draw_numbers = block_hits (x # block) draw_numbers"
    "block_hits (remdups block) draw_numbers = block_hits block draw_numbers"
    by (simp_all add: block_hits_def)
  from bound srt dup show ?thesis
    by (simp add: block_hits_set block_hits_length match_counter_score_step)
qed

theorem intersection_correctness_witness:
  "block_hits [9, 3, 3, 1, 1, 7] [1, 2, 3, 4, 5, 6] = [1, 3] \<and>
   card (set [9, 3, 3, 1, 1, 7] \<inter> set [1, 2, 3, 4, 5, 6 :: int]) = 2"
proof -
  have "block_hits [9, 3, 3, 1, 1, 7] [1, 2, 3, 4, 5, 6] = [1, 3]"
    by code_simp
  with intersection_correctness [of "[9, 3, 3, 1, 1, 7]" "[1, 2, 3, 4, 5, 6]"]
  show ?thesis by simp
qed

text \<open>
  Claim C2 (histogram totality). Whatever the threshold and the drawn numbers, the counts
  of \<^verbatim>\<open>match_counter\<close> add up to the number of mapped blocks. The keys of the histogram
  are pairwise distinct, so the sum over the association list is the sum of the dict's
  values.
\<close>

theorem histogram_totality:
  "sum_list (map snd (match_counter (score_blocks min_hits draw_numbers mapped))) =
     int (length mapped) \<and>
   distinct (map fst (match_counter (score_blocks min_hits draw_numbers mapped)))"
proof
  show "sum_list (map snd (match_counter (score_blocks min_hits draw_numbers mapped))) =
     int (length mapped)"
    unfolding score_blocks_def by (simp add: score_loop_counter_sum)
next
  show "distinct (map fst (match_counter (score_blocks min_hits draw_numbers mapped)))"
    unfolding score_blocks_def by (rule score_loop_counter_distinct) simp
qed

theorem histogram_totality_witness:
  "match_counter (score_blocks 4 [1, 2, 3, 4, 5, 6]
      [[1, 2, 3, 4, 5, 6], [1, 1, 1, 7, 8, 9], [7, 8, 9, 10, 11, 12], [6, 12, 13, 14, 15, 16]])
     = [(6, 1), (1, 2), (0, 1)] \<and>
   sum_list (map snd (match_counter (score_blocks 4 [1, 2, 3, 4, 5, 6]
      [[1, 2, 3, 4, 5, 6], [1, 1, 1, 7, 8, 9], [7, 8, 9, 10, 11, 12], [6, 12, 13, 14, 15, 16]])))
     = 4"
proof -
  have "match_counter (score_blocks 4 [1, 2, 3, 4, 5, 6]
      [[1, 2, 3, 4, 5, 6], [1, 1, 1, 7, 8, 9], [7, 8, 9, 10, 11, 12], [6, 12, 13, 14, 15, 16]])
     = [(6, 1), (1, 2), (0, 1)]"
    by code_simp
  with histogram_totality [of 4 "[1, 2, 3, 4, 5, 6]"
      "[[1, 2, 3, 4, 5, 6], [1, 1, 1, 7, 8, 9], [7, 8, 9, 10, 11, 12], [6, 12, 13, 14, 15, 16]]"]
  show ?thesis by simp
qed

subsection \<open>Prizes\<close>

lemma total_fixed_eq:
  "total_fixed (prize_summary counter jackpot_amount n_blocks) =
     dict_get counter 5 0 * 24000 + dict_get counter 4 0 * 800 + dict_get counter 3 0 * 20"
  by (simp add: prize_summary_def prize_table_def Let_def)

lemma total_jackpot_eq:
  "total_jackpot (prize_summary counter jackpot_amount n_blocks) =
     dict_get counter 6 0 * jackpot_amount"
  by (simp add: prize_summary_def Let_def)

lemma grand_total_eq:
  "grand_total (prize_summary counter jackpot_amount n_blocks) =
     total_fixed (prize_summary counter jackpot_amount n_blocks) +
     total_jackpot (prize_summary counter jackpot_amount n_blocks)"
  by (simp add: prize_summary_def Let_def)

lemma total_cost_eq:
  "total_cost (prize_summary counter jackpot_amount n_blocks) = n_blocks * 20"
  by (simp add: prize_summary_def ticket_price_def Let_def)

lemma net_profit_eq:
  "net_profit (prize_summary counter jackpot_amount n_blocks) =
     grand_total (prize_summary counter jackpot_amount n_blocks) -
     total_cost (prize_summary counter jackpot_amount n_blocks)"
  by (simp add: prize_summary_def Let_def)

text \<open>
  Claim C5 (prize arithmetic). For every histogram, jackpot amount and number of mapped
  blocks: the fixed total is the sum, over the prize table's entries 5 to 24000, 4 to 800
  and 3 to 20, of the histogram's count (0 when absent) times the prize; the jackpot
  total is the count at 6 times the jackpot amount; the grand total is their sum; the
  cost is the number of blocks times the ticket price 20; the net profit is the grand
  total minus the cost. For the histogram \<open>{3: 2, 4: 1}\<close>, jackpot 30000000 and 10
  blocks the figures are 840, 0, 840, 200 and 640.
\<close>

theorem prize_arithmetic:
  "total_fixed (prize_summary counter jackpot_amount n_blocks) =
     (\<Sum>(k, prize) \<leftarrow> prize_table. dict_get counter k 0 * prize) \<and>
   total_fixed (prize_summary counter jackpot_amount n_blocks) =
     dict_get counter 5 0 * 24000 + dict_get counter 4 0 * 800 + dict_get counter 3 0 * 20 \<and>
   total_jackpot (prize_summary counter jackpot_amount n_blocks) =
     dict_get counter 6 0 * jackpot_amount \<and>
   grand_total (prize_summary counter jackpot_amount n_blocks) =
     total_fixed (prize_summary counter jackpot_amount n_blocks) +
     total_jackpot (prize_summary counter jackpot_amount n_blocks) \<and>
   total_cost (prize_summary counter jackpot_amount n_blocks) = n_blocks * ticket_price \<and>
   ticket_price = 20 \<and>
   net_profit (prize_summary counter jackpot_amount n_blocks) =
     grand_total (prize_summary counter jackpot_amount n_blocks) -
     total_cost (prize_summary counter jackpot_amount n_blocks) \<and>
   prize_summary [(3, 2), (4, 1)] 30000000 10 =
     \<lparr>six_hit_count = 0, total_fixed = 840, total_jackpot = 0, grand_total = 840,
      total_blocks = 10, total_cost = 200, net_profit = 640\<rparr>"
proof -
  have tbl: "total_fixed (prize_summary counter jackpot_amount n_blocks) =
     (\<Sum>(k, prize) \<leftarrow> prize_table. dict_get counter k 0 * prize)"
    by (simp add: prize_summary_def prize_table_def Let_def)
  have scenario: "prize_summary [(3, 2), (4, 1)] 30000000 10 =
     \<lparr>six_hit_count = 0, total_fixed = 840, total_jackpot = 0, grand_total = 840,
      total_blocks = 10, total_cost = 200, net_profit = 640\<rparr>"
    by (simp add: prize_summary_def prize_table_def ticket_price_def dict_get_def Let_def)
  have price: "ticket_price = 20"
    by (simp add: ticket_price_def)
  show ?thesis
    using tbl scenario price
      total_fixed_eq [of counter jackpot_amount n_blocks]
      total_jackpot_eq [of counter jackpot_amount n_blocks]
      grand_total_eq [of counter jackpot_amount n_blocks]
      total_cost_eq [of counter jackpot_amount n_blocks]
      net_profit_eq [of counter jackpot_amount n_blocks]
    by simp
qed

theorem prize_arithmetic_witness:
  "total_fixed (prize_summary [(5, 1), (6, 2), (0, 4), (3, 3)] 1000 10) = 24060 \<and>
   total_jackpot (prize_summary [(5, 1), (6, 2), (0, 4), (3, 3)] 1000 10) = 2000 \<and>
   grand_total (prize_summary [(5, 1), (6, 2), (0, 4), (3, 3)] 1000 10) = 26060 \<and>
   total_cost (prize_summary [(5, 1), (6, 2), (0, 4), (3, 3)] 1000 10) = 200 \<and>
   net_profit (prize_summary [(5, 1), (6, 2), (0, 4), (3, 3)] 1000 10) = 25860"
  using prize_arithmetic [of "[(5, 1), (6, 2), (0, 4), (3, 3)]" 1000 10]
  by (simp add: dict_get_def)

text \<open>
  Claim C1 (threshold independence of prizing). Two thresholds give the same histogram
  for the same mapped blocks and drawn numbers, hence the same prize summary (fixed
  total, jackpot total, grand total, cost and net profit); a whole run of the script with
  one threshold ends with the same summary, or stops for the same reason, as a run with
  the other. The threshold only decides which blocks enter \<^verbatim>\<open>hit_blocks\<close>.
\<close>

theorem threshold_independence:
  "match_counter (score_blocks m1 draw_numbers mapped) =
     match_counter (score_blocks m2 draw_numbers mapped) \<and>
   prize_summary (match_counter (score_blocks m1 draw_numbers mapped)) jackpot_amount n_blocks =
     prize_summary (match_counter (score_blocks m2 draw_numbers mapped)) jackpot_amount n_blocks \<and>
   map_sum id prizes (run_app I designs selected generate_pressed blocks user_input
       draw_input m1 jackpot_amount) =
     map_sum id prizes (run_app I designs selected generate_pressed blocks user_input
       draw_input m2 jackpot_amount)"
proof -
  have eq: "match_counter (score_blocks m1 d mp) = match_counter (score_blocks m2 d mp)" for d mp
    by (rule score_blocks_counter_indep)
  have run: "map_sum id prizes (run_app I designs selected generate_pressed blocks user_input
       draw_input m1 jackpot_amount) =
     map_sum id prizes (run_app I designs selected generate_pressed blocks user_input
       draw_input m2 jackpot_amount)"
    by (simp add: run_app_def Let_def eq split: sum.splits)
  from eq run show ?thesis by simp
qed

theorem threshold_independence_witness:
  "map_sum id prizes (run_app example_interpreter [ascii ''08-06-03'']
      (ascii ''08-06-03'') False [[1, 2, 3, 4, 5, 6], [1, 2, 3, 4, 7, 8], [3, 4, 5, 6, 7, 8]]
      (ascii ''1,2,3,4,5,6,7,8'') (ascii ''1,2,3,4,5,6'') 0 30000000) =
   map_sum id prizes (run_app example_interpreter [ascii ''08-06-03'']
      (ascii ''08-06-03'') False [[1, 2, 3, 4, 5, 6], [1, 2, 3, 4, 7, 8], [3, 4, 5, 6, 7, 8]]
      (ascii ''1,2,3,4,5,6,7,8'') (ascii ''1,2,3,4,5,6'') 6 30000000) \<and>
   map_sum id prizes (run_app example_interpreter [ascii ''08-06-03'']
      (ascii ''08-06-03'') False [[1, 2, 3, 4, 5, 6], [1, 2, 3, 4, 7, 8], [3, 4, 5, 6, 7, 8]]
      (ascii ''1,2,3,4,5,6,7,8'') (ascii ''1,2,3,4,5,6'') 6 30000000) =
   Inr \<lparr>six_hit_count = 1, total_fixed = 1600, total_jackpot = 30000000,
        grand_total = 30001600, total_blocks = 3, total_cost = 60, net_profit = 30001540\<rparr>"
proof -
  have "map_sum id prizes (run_app example_interpreter [ascii ''08-06-03'']
      (ascii ''08-06-03'') False [[1, 2, 3, 4, 5, 6], [1, 2, 3, 4, 7, 8], [3, 4, 5, 6, 7, 8]]
      (ascii ''1,2,3,4,5,6,7,8'') (ascii ''1,2,3,4,5,6'') 6 30000000) =
   Inr \<lparr>six_hit_count = 1, total_fixed = 1600, total_jackpot = 30000000,
        grand_total = 30001600, total_blocks = 3, total_cost = 60, net_profit = 30001540\<rparr>"
    by code_simp
  with threshold_independence [where ?m1.0 = 0 and ?m2.0 = 6 and draw_numbers = "[1, 2, 3, 4, 5, 6]"
      and mapped = "[]" and jackpot_amount = 30000000 and n_blocks = 0
      and I = example_interpreter and designs = "[ascii ''08-06-03'']"
      and selected = "ascii ''08-06-03''" and generate_pressed = False
      and blocks = "[[1, 2, 3, 4, 5, 6], [1, 2, 3, 4, 7, 8], [3, 4, 5, 6, 7, 8]]"
      and user_input = "ascii ''1,2,3,4,5,6,7,8''" and draw_input = "ascii ''1,2,3,4,5,6''"]
  show ?thesis by simp
qed

subsection \<open>Signs of the prize figures\<close>

lemma counts_nonneg_get: "counts_nonneg d \<Longrightarrow> 0 \<le> dict_get d k 0"
  by (induction d) (auto simp: counts_nonneg_def dict_get_Cons dict_get_def)

lemma counts_nonneg_set: "counts_nonneg d \<Longrightarrow> 0 \<le> v \<Longrightarrow> counts_nonneg (dict_set d k v)"
  by (induction d) (auto simp: counts_nonneg_def)

lemma counts_nonneg_score_loop:
  "counts_nonneg (match_counter st) \<Longrightarrow>
   counts_nonneg (match_counter (score_loop min_hits draw_numbers i mapped st))"
proof (induction mapped arbitrary: i st)
  case Nil
  then show ?case by simp
next
  case (Cons block rest)
  have "counts_nonneg (match_counter (score_step min_hits draw_numbers st i block))"
    using Cons.prems counts_nonneg_get [of "match_counter st"]
    by (simp add: match_counter_score_step counts_nonneg_set)
  then show ?case by (simp add: Cons.IH)
qed

lemma counts_nonneg_score_blocks:
  "counts_nonneg (match_counter (score_blocks min_hits draw_numbers mapped))"
  unfolding score_blocks_def by (rule counts_nonneg_score_loop) (simp add: counts_nonneg_def)

text \<open>
  Claim C6 (non-negativity of prize quantities) fails as stated: the jackpot amount is
  read with no lower bound, and a negative amount with one six-hit block makes the
  jackpot total and the grand total negative. The run below has one block that matches
  all six drawn numbers and a jackpot amount of -1000000.
\<close>

theorem negative_jackpot_counterexample:
  "map_sum id prizes (run_app example_interpreter [ascii ''08-06-03''] (ascii ''08-06-03'') False
      [[1, 2, 3, 4, 5, 6]] (ascii ''1,2,3,4,5,6,7,8'') (ascii ''1,2,3,4,5,6'') 1 (- 1000000)) =
   Inr \<lparr>six_hit_count = 1, total_fixed = 0, total_jackpot = - 1000000,
        grand_total = - 1000000, total_blocks = 1, total_cost = 20, net_profit = - 1000020\<rparr>"
  by code_simp

text \<open>
  Claim C6, amended. For the histogram the scorer produces from any mapped blocks, drawn
  numbers and threshold, the fixed total and the total cost are non-negative for every
  jackpot amount, and the jackpot total and the grand total are non-negative whenever the
  jackpot amount is non-negative. The net profit may be negative.
\<close>

theorem prize_quantities_nonneg:
  "0 \<le> total_fixed (prize_summary (match_counter (score_blocks min_hits draw_numbers mapped))
          jackpot_amount (int (length mapped))) \<and>
   0 \<le> total_cost (prize_summary (match_counter (score_blocks min_hits draw_numbers mapped))
          jackpot_amount (int (length mapped))) \<and>
   (0 \<le> jackpot_amount \<longrightarrow>
      0 \<le> total_jackpot (prize_summary (match_counter (score_blocks min_hits draw_numbers mapped))
             jackpot_amount (int (length mapped))) \<and>
      0 \<le> grand_total (prize_summary (match_counter (score_blocks min_hits draw_numbers mapped))
             jackpot_amount (int (length mapped))))"
proof -
  let ?c = "match_counter (score_blocks min_hits draw_numbers mapped)"
  have get: "0 \<le> dict_get ?c k 0" for k
    by (rule counts_nonneg_get) (rule counts_nonneg_score_blocks)
  have fixed: "0 \<le> total_fixed (prize_summary ?c jackpot_amount (int (length mapped)))"
    unfolding total_fixed_eq using get [of 5] get [of 4] get [of 3] by simp
  have cost: "0 \<le> total_cost (prize_summary ?c jackpot_amount (int (length mapped)))"
    unfolding total_cost_eq by simp
  have jack: "0 \<le> total_jackpot (prize_summary ?c jackpot_amount (int (length mapped)))"
    if "0 \<le> jackpot_amount"
    unfolding total_jackpot_eq using get [of 6] that by simp
  have grand: "0 \<le> grand_total (prize_summary ?c jackpot_amount (int (length mapped)))"
    if "0 \<le> jackpot_amount"
    unfolding grand_total_eq using fixed jack [OF that] by simp
  from fixed cost jack grand show ?thesis by simp
qed

theorem prize_quantities_nonneg_witness:
  "(0::int) \<le> 30000000 \<and>
   prize_summary (match_counter (score_blocks 1 [1, 2, 3, 4, 5, 6] [[7, 8, 9, 10, 11, 12]]))
      30000000 (int (length [[7, 8, 9, 10, 11, 12 :: int]])) =
     \<lparr>six_hit_count = 0, total_fixed = 0, total_jackpot = 0, grand_total = 0,
      total_blocks = 1, total_cost = 20, net_profit = - 20\<rparr> \<and>
   0 \<le> grand_total (prize_summary
      (match_counter (score_blocks 1 [1, 2, 3, 4, 5, 6] [[7, 8, 9, 10, 11, 12]]))
      30000000 (int (length [[7, 8, 9, 10, 11, 12 :: int]])))"
proof -
  have "prize_summary (match_counter (score_blocks 1 [1, 2, 3, 4, 5, 6] [[7, 8, 9, 10, 11, 12]]))
      30000000 (int (length [[7, 8, 9, 10, 11, 12 :: int]])) =
     \<lparr>six_hit_count = 0, total_fixed = 0, total_jackpot = 0, grand_total = 0,
      total_blocks = 1, total_cost = 20, net_profit = - 20\<rparr>"
    by code_simp
  with prize_quantities_nonneg [of 1 "[1, 2, 3, 4, 5, 6]" "[[7, 8, 9, 10, 11, 12]]" 30000000]
  show ?thesis by simp
qed

subsection \<open>Reading text\<close>

lemma unicode_decimal_ascii:
  "c < 128 \<Longrightarrow> unicode_decimal I c = (if is_ascii_digit c then Some (c - 48) else None)"
  by (simp add: unicode_decimal_def is_ascii_digit_def)

lemma unicode_decimal_beyond_ascii:
  assumes ok: "unicode_ok I" and c: "128 \<le> c" and d: "unicode_decimal I c = Some d"
  shows "\<not> is_space c \<and> 0 \<le> d \<and> d < 10"
proof -
  from c d obtain z where f: "find (\<lambda>z. z \<le> c \<and> c < z + 10) (decimal_zeros I) = Some z"
    and dz: "d = c - z"
    by (auto simp: unicode_decimal_def)
  from f have z: "z \<in> set (decimal_zeros I)" and rng: "z \<le> c" "c < z + 10"
    by (auto simp: find_Some_iff)
  from ok z have "list_all (\<lambda>c. \<not> is_space c) [z..z + 9]"
    by (simp add: unicode_ok_def list_all_iff)
  moreover from rng have "c \<in> set [z..z + 9]" by simp
  ultimately have "\<not> is_space c" by (simp add: list_all_iff)
  with dz rng show ?thesis by simp
qed

lemma is_decimal_value:
  assumes "unicode_ok I" "is_decimal I c"
  shows "0 \<le> the (unicode_decimal I c) \<and> the (unicode_decimal I c) < 10"
proof (cases "c < 128")
  case True
  with assms(2) show ?thesis
    by (auto simp: is_decimal_def unicode_decimal_ascii is_ascii_digit_def split: if_splits)
next
  case False
  from assms(2) obtain d where "unicode_decimal I c = Some d"
    by (auto simp: is_decimal_def)
  with False assms(1) unicode_decimal_beyond_ascii [of I c d] show ?thesis by simp
qed

lemma to_ascii_decimal_run:
  "unicode_ok I \<Longrightarrow> list_all (is_decimal I) run \<Longrightarrow>
   to_ascii I run = map (\<lambda>c. 48 + the (unicode_decimal I c)) run"
proof (induction run)
  case Nil
  show ?case by simp
next
  case (Cons c run)
  from Cons.prems have dec: "is_decimal I c" and rest: "list_all (is_decimal I) run"
    by simp_all
  have tail: "to_ascii I run = map (\<lambda>c. 48 + the (unicode_decimal I c)) run"
    using Cons.IH Cons.prems(1) rest by simp
  show ?case
  proof (cases "c < 128")
    case True
    with dec have dig: "is_ascii_digit c" and val: "unicode_decimal I c = Some (c - 48)"
      by (auto simp: is_decimal_def unicode_decimal_ascii split: if_splits)
    from dig have "c < 127" by (simp add: is_ascii_digit_def)
    with val tail show ?thesis by simp
  next
    case False
    from dec obtain d where d: "unicode_decimal I c = Some d"
      by (auto simp: is_decimal_def)
    with False Cons.prems(1) unicode_decimal_beyond_ascii [of I c d]
    have "\<not> is_space c" by simp
    with False d tail show ?thesis by simp
  qed
qed

lemma digits_ok_all_digits: "list_all is_ascii_digit ds \<Longrightarrow> ds \<noteq> [] \<Longrightarrow> digits_ok ds"
proof (induction ds rule: digits_ok.induct)
  case 1
  then show ?case by simp
next
  case (2 c)
  then show ?case by simp
next
  case (3 c d cs)
  from "3.prems" have c: "is_ascii_digit c" and d: "is_ascii_digit d"
    and rest: "list_all is_ascii_digit (d # cs)"
    by simp_all
  from d have "d \<noteq> 95" by (auto simp: is_ascii_digit_def)
  with "3.IH"(2) rest c show ?case by simp
qed

lemma long_from_string_digits:
  assumes all: "list_all is_ascii_digit ds" and ne: "ds \<noteq> []"
  shows "long_from_string I ds =
     (if 0 < int_max_str_digits I \<and> int_max_str_digits I < length ds then None
      else Some (decimal ds))"
proof -
  from all ne have h: "is_ascii_digit (hd ds)" by (cases ds) simp_all
  then have nsp: "\<not> c_isspace (hd ds)" and nsg: "hd ds \<noteq> 43" "hd ds \<noteq> 45"
    by (auto simp: is_ascii_digit_def c_isspace_def)
  from ne nsp have s1: "dropWhile c_isspace ds = ds"
    by (simp add: dropWhile_eq_self_iff)
  from all have run: "takeWhile (\<lambda>c. is_ascii_digit c \<or> c = 95) ds = ds"
    and rest: "dropWhile (\<lambda>c. is_ascii_digit c \<or> c = 95) ds = []"
    and flt: "filter is_ascii_digit ds = ds"
    by (simp_all add: list_all_iff)
  show ?thesis
    using digits_ok_all_digits [OF all ne] nsg
    by (simp add: long_from_string_def s1 run rest flt Let_def)
qed

lemma decimal_snoc: "decimal (ds @ [c]) = 10 * decimal ds + (c - 48)"
  by (simp add: decimal_def)

lemma decimal_positional:
  "decimal ds = (\<Sum>i < length ds. (ds ! i - 48) * 10 ^ (length ds - 1 - i))"
proof (induction ds rule: rev_induct)
  case Nil
  show ?case by (simp add: decimal_def)
next
  case (snoc c ds)
  let ?n = "length ds"
  have "10 * (\<Sum>i < ?n. (ds ! i - 48) * 10 ^ (?n - 1 - i)) =
        (\<Sum>i < ?n. (ds ! i - 48) * 10 ^ (?n - i))"
  proof -
    have "10 * (\<Sum>i < ?n. (ds ! i - 48) * 10 ^ (?n - 1 - i)) =
          (\<Sum>i < ?n. 10 * ((ds ! i - 48) * 10 ^ (?n - 1 - i)))"
      by (rule sum_distrib_left)
    also have "\<dots> = (\<Sum>i < ?n. (ds ! i - 48) * 10 ^ (?n - i))"
    proof (rule sum.cong)
      fix i assume "i \<in> {..<?n}"
      then have "?n - i = Suc (?n - 1 - i)" by auto
      then show "10 * ((ds ! i - 48) * 10 ^ (?n - 1 - i)) = (ds ! i - 48) * 10 ^ (?n - i)"
        by simp
    qed simp
    finally show ?thesis .
  qed
  moreover have "(\<Sum>i < ?n. ((ds @ [c]) ! i - 48) * 10 ^ (?n - i)) =
                 (\<Sum>i < ?n. (ds ! i - 48) * 10 ^ (?n - i))"
    by (rule sum.cong) (simp_all add: nth_append)
  ultimately show ?case
    by (simp add: decimal_snoc snoc.IH)
qed

lemma takeWhile_all: "list_all P (takeWhile P xs)"
  by (induction xs) simp_all

lemma py_int_decimal_run:
  assumes ok: "unicode_ok I" and all: "list_all (is_decimal I) run" and ne: "run \<noteq> []"
  shows "py_int I run =
     (if 0 < int_max_str_digits I \<and> int_max_str_digits I < length run then None
      else Some (\<Sum>i < length run. the (unicode_decimal I (run ! i)) * 10 ^ (length run - 1 - i)))"
proof -
  let ?ds = "map (\<lambda>c. 48 + the (unicode_decimal I c)) run"
  have ta: "to_ascii I run = ?ds"
    using ok all by (rule to_ascii_decimal_run)
  have dig: "list_all is_ascii_digit ?ds"
    unfolding list_all_iff is_ascii_digit_def
  proof
    fix a assume "a \<in> set ?ds"
    then obtain c where c: "c \<in> set run" and a: "a = 48 + the (unicode_decimal I c)"
      by auto
    from all c have "is_decimal I c" by (simp add: list_all_iff)
    from is_decimal_value [OF ok this] a show "48 \<le> a \<and> a \<le> 57" by simp
  qed
  have ne': "?ds \<noteq> []" using ne by simp
  have "decimal ?ds = (\<Sum>i < length ?ds. (?ds ! i - 48) * 10 ^ (length ?ds - 1 - i))"
    by (rule decimal_positional)
  also have "\<dots> = (\<Sum>i < length run. the (unicode_decimal I (run ! i)) * 10 ^ (length run - 1 - i))"
    by (rule sum.cong) simp_all
  finally have val: "decimal ?ds =
    (\<Sum>i < length run. the (unicode_decimal I (run ! i)) * 10 ^ (length run - 1 - i))" .
  show ?thesis
    using long_from_string_digits [OF dig ne', of I] val
    by (simp add: py_int_def ta)
qed

lemma get_v_from_description_eq:
  assumes "unicode_ok I"
  shows "get_v_from_description I description =
     (if takeWhile (is_decimal I) description = [] then Inl DescriptionValueError
      else if 0 < int_max_str_digits I \<and>
              int_max_str_digits I < length (takeWhile (is_decimal I) description)
        then Inl DescriptionValueError
      else Inr (\<Sum>i < length (takeWhile (is_decimal I) description).
                  the (unicode_decimal I (takeWhile (is_decimal I) description ! i)) *
                  10 ^ (length (takeWhile (is_decimal I) description) - 1 - i)))"
proof (cases "takeWhile (is_decimal I) description = []")
  case True
  then show ?thesis by (simp add: get_v_from_description_def)
next
  case False
  from py_int_decimal_run [OF assms takeWhile_all False] False
  show ?thesis by (simp add: get_v_from_description_def Let_def)
qed

lemma unicode_ok_example: "unicode_ok example_interpreter"
  by code_simp

lemma ascii_replicate: "ascii (replicate n c) = replicate n (of_char c)"
  by (simp add: ascii_def)

text \<open>
  Claim C8 (description parsing) fails as stated: a description can start with a decimal
  digit and still raise. The interpreter refuses to convert more digits than its limit,
  4300 unless configured otherwise, so a description that starts with 4301 nines makes
  \<^verbatim>\<open>int\<close>, and with it \<^verbatim>\<open>get_v_from_description\<close>, raise ValueError.
\<close>

theorem long_description_counterexample:
  "is_decimal example_interpreter (hd (ascii (replicate 4301 (CHR ''9'')))) \<and>
   int_max_str_digits example_interpreter = 4300 \<and>
   get_v_from_description example_interpreter (ascii (replicate 4301 (CHR ''9''))) =
     Inl DescriptionValueError"
proof -
  have nine: "is_decimal example_interpreter 57"
    by (simp add: is_decimal_def unicode_decimal_def)
  have run: "takeWhile (is_decimal example_interpreter) (replicate 4301 57) = replicate 4301 57"
    using nine by (simp add: takeWhile_replicate)
  have lim: "int_max_str_digits example_interpreter = 4300"
    by (simp add: example_interpreter_def)
  have "get_v_from_description example_interpreter (replicate 4301 57) = Inl DescriptionValueError"
    using get_v_from_description_eq [OF unicode_ok_example, of "replicate 4301 57"]
    by (simp add: run lim)
  with nine lim show ?thesis by (simp add: ascii_replicate)
qed

text \<open>
  Claim C8, amended. The leading run of decimal digits of a description is
  \<open>takeWhile (is_decimal I) description\<close>. On an interpreter whose digit runs lie outside
  ASCII and hold no white space, as those of every Unicode database do:
  \<^verbatim>\<open>get_v_from_description\<close> raises ValueError when the run is empty, which is when the
  description is empty or starts with another character, and when the interpreter has a
  digit limit and the run is longer than it; in every other case it returns the value of
  the run in base ten, the sum of the digits' values weighted by powers of ten. So it
  raises exactly in those two cases, and never substitutes a value. The ASCII digits
  have the values 0 to 9, and \<^verbatim>\<open>8N-3S\<close> gives 8 on every interpreter.
\<close>

theorem description_parsing:
  "(unicode_ok I \<longrightarrow>
      get_v_from_description I description =
        (if takeWhile (is_decimal I) description = [] then Inl DescriptionValueError
         else if 0 < int_max_str_digits I \<and>
                 int_max_str_digits I < length (takeWhile (is_decimal I) description)
           then Inl DescriptionValueError
         else Inr (\<Sum>i < length (takeWhile (is_decimal I) description).
                     the (unicode_decimal I (takeWhile (is_decimal I) description ! i)) *
                     10 ^ (length (takeWhile (is_decimal I) description) - 1 - i))) \<and>
      ((\<exists>e. get_v_from_description I description = Inl e) \<longleftrightarrow>
         (0 < int_max_str_digits I \<and>
          int_max_str_digits I < length (takeWhile (is_decimal I) description)) \<or>
         \<not> (\<exists>c rest. description = c # rest \<and> is_decimal I c))) \<and>
   (takeWhile (is_decimal I) description = [] \<longleftrightarrow>
      \<not> (\<exists>c rest. description = c # rest \<and> is_decimal I c)) \<and>
   map (unicode_decimal I) (ascii ''0123456789'') =
     [Some 0, Some 1, Some 2, Some 3, Some 4, Some 5, Some 6, Some 7, Some 8, Some 9] \<and>
   get_v_from_description I (ascii ''8N-3S'') = Inr 8"
proof -
  let ?run = "takeWhile (is_decimal I) description"
  have lead: "?run = [] \<longleftrightarrow> \<not> (\<exists>c rest. description = c # rest \<and> is_decimal I c)"
    by (cases description) simp_all
  have val: "get_v_from_description I description =
        (if ?run = [] then Inl DescriptionValueError
         else if 0 < int_max_str_digits I \<and> int_max_str_digits I < length ?run
           then Inl DescriptionValueError
         else Inr (\<Sum>i < length ?run.
                     the (unicode_decimal I (?run ! i)) * 10 ^ (length ?run - 1 - i)))"
    if "unicode_ok I"
    using that by (rule get_v_from_description_eq)
  have err: "(\<exists>e. get_v_from_description I description = Inl e) \<longleftrightarrow>
         (0 < int_max_str_digits I \<and> int_max_str_digits I < length ?run) \<or>
         \<not> (\<exists>c rest. description = c # rest \<and> is_decimal I c)"
    if "unicode_ok I"
    unfolding val [OF that] lead [symmetric] by auto
  have dv: "map (unicode_decimal I) (ascii ''0123456789'') =
     [Some 0, Some 1, Some 2, Some 3, Some 4, Some 5, Some 6, Some 7, Some 8, Some 9]"
    by (simp add: ascii_def unicode_decimal_def)
  have ex: "get_v_from_description I (ascii ''8N-3S'') = Inr 8"
    by (auto simp: get_v_from_description_def ascii_def is_decimal_def unicode_decimal_def
        py_int_def long_from_string_def c_isspace_def is_ascii_digit_def decimal_def Let_def)
  from lead val err dv ex show ?thesis by blast
qed

theorem description_parsing_witness:
  "unicode_ok example_interpreter \<and>
   get_v_from_description example_interpreter (ascii ''N-3S'') = Inl DescriptionValueError \<and>
   get_v_from_description example_interpreter (ascii []) = Inl DescriptionValueError \<and>
   get_v_from_description example_interpreter (ascii ''15N-3S'') = Inr 15 \<and>
   get_v_from_description example_interpreter (ascii ''08-06-03'') = Inr 8 \<and>
   get_v_from_description example_interpreter ([0x663, 0xFF14] @ ascii ''2N'') = Inr 342 \<and>
   get_v_from_description example_interpreter ([0xA0] @ ascii ''8N'') = Inl DescriptionValueError"
proof -
  have none: "takeWhile (is_decimal example_interpreter) (ascii ''N-3S'') = []"
    "takeWhile (is_decimal example_interpreter) (ascii []) = []"
    by code_simp+
  have vals: "get_v_from_description example_interpreter (ascii ''15N-3S'') = Inr 15"
    "get_v_from_description example_interpreter (ascii ''08-06-03'') = Inr 8"
    "get_v_from_description example_interpreter ([0x663, 0xFF14] @ ascii ''2N'') = Inr 342"
    "get_v_from_description example_interpreter ([0xA0] @ ascii ''8N'') = Inl DescriptionValueError"
    by code_simp+
  show ?thesis
    using description_parsing [of example_interpreter "ascii ''N-3S''"]
      description_parsing [of example_interpreter "ascii []"]
      unicode_ok_example none vals
    by simp
qed

subsection \<open>Validating the drawn numbers\<close>

lemma six_unique_iff:
  "\<not> (length ds \<noteq> 6 \<or> card (set ds) \<noteq> 6) \<longleftrightarrow> length ds = 6 \<and> distinct ds"
  by (metis card_distinct distinct_card)

lemma read_draw_numbers_Inr_iff:
  "read_draw_numbers I draw_input = Inr ds \<longleftrightarrow>
     parse_numbers I draw_input = Some ds \<and> length ds = 6 \<and> distinct ds"
proof (cases "parse_numbers I draw_input")
  case None
  then show ?thesis by (simp add: read_draw_numbers_def)
next
  case (Some ns)
  show ?thesis
  proof (cases "length ns \<noteq> 6 \<or> card (set ns) \<noteq> 6")
    case True
    with Some six_unique_iff [of ns] show ?thesis
      by (auto simp: read_draw_numbers_def)
  next
    case False
    with Some six_unique_iff [of ns] show ?thesis
      by (auto simp: read_draw_numbers_def)
  qed
qed

lemma read_draw_numbers_cases:
  "read_draw_numbers I draw_input = Inl InvalidDrawnFormat \<or>
   read_draw_numbers I draw_input = Inl NotSixUnique \<or>
   (\<exists>ds. read_draw_numbers I draw_input = Inr ds)"
  by (simp add: read_draw_numbers_def split: option.splits)

lemma run_app_rejects_draw:
  "read_draw_numbers I draw_input = Inl e \<Longrightarrow>
   \<exists>e'. run_app I designs selected generate_pressed blocks user_input draw_input min_hits
          jackpot_amount = Inl e'"
  by (simp add: run_app_def split: sum.splits)

lemma run_app_after_inputs:
  "designs \<noteq> [] \<Longrightarrow> get_v_from_description I selected = Inr v_design \<Longrightarrow>
   \<not> (generate_pressed \<and> v_design > 42) \<Longrightarrow>
   read_user_numbers I user_input = Inr user_numbers \<Longrightarrow>
   run_app I designs selected generate_pressed blocks user_input draw_input min_hits
       jackpot_amount =
     (case read_draw_numbers I draw_input of
        Inl e \<Rightarrow> Inl e
      | Inr draw_numbers \<Rightarrow>
          Inr \<lparr>classification = classify_blocks user_numbers blocks,
               scoring = score_blocks min_hits draw_numbers
                           (mapped_blocks (classify_blocks user_numbers blocks)),
               prizes = prize_summary
                          (match_counter (score_blocks min_hits draw_numbers
                             (mapped_blocks (classify_blocks user_numbers blocks))))
                          jackpot_amount
                          (int (length (mapped_blocks (classify_blocks user_numbers blocks))))\<rparr>)"
  by (auto simp: run_app_def Let_def split: sum.splits)

text \<open>
  Claim C7 (drawn-numbers validation). The drawn-numbers text is accepted exactly when it
  parses to six pairwise distinct integers. Otherwise the check fails, with the message
  for a bad format or for not having six unique numbers, and the run stops with no
  classification, scoring or prize summary, whatever the other inputs are. When the
  earlier steps have passed (a design exists, its description gives \<open>v\<close>, the sample of
  the generate button did not fail, the base numbers were accepted), the run goes on to
  classification, scoring and prizes with the accepted numbers, and stops with the draw's
  own failure otherwise. The text \<^verbatim>\<open>1,1,2,3,4,5\<close> is rejected on every interpreter.
\<close>

theorem drawn_numbers_validation:
  "(read_draw_numbers I draw_input = Inr ds \<longleftrightarrow>
      parse_numbers I draw_input = Some ds \<and> length ds = 6 \<and> distinct ds) \<and>
   (\<not> (\<exists>ns. parse_numbers I draw_input = Some ns \<and> length ns = 6 \<and> distinct ns) \<longrightarrow>
      (read_draw_numbers I draw_input = Inl InvalidDrawnFormat \<or>
       read_draw_numbers I draw_input = Inl NotSixUnique) \<and>
      (\<exists>e. run_app I designs selected generate_pressed blocks user_input draw_input min_hits
             jackpot_amount = Inl e)) \<and>
   (designs \<noteq> [] \<and> get_v_from_description I selected = Inr v_design \<and>
    \<not> (generate_pressed \<and> v_design > 42) \<and>
    read_user_numbers I user_input = Inr user_numbers \<longrightarrow>
      run_app I designs selected generate_pressed blocks user_input draw_input min_hits
          jackpot_amount =
        (case read_draw_numbers I draw_input of
           Inl e \<Rightarrow> Inl e
         | Inr draw_numbers \<Rightarrow>
             Inr \<lparr>classification = classify_blocks user_numbers blocks,
                  scoring = score_blocks min_hits draw_numbers
                              (mapped_blocks (classify_blocks user_numbers blocks)),
                  prizes = prize_summary
                             (match_counter (score_blocks min_hits draw_numbers
                                (mapped_blocks (classify_blocks user_numbers blocks))))
                             jackpot_amount
                             (int (length (mapped_blocks (classify_blocks user_numbers blocks))))\<rparr>)) \<and>
   read_draw_numbers I (ascii ''1,1,2,3,4,5'') = Inl NotSixUnique"
proof -
  have rej: "(read_draw_numbers I draw_input = Inl InvalidDrawnFormat \<or>
       read_draw_numbers I draw_input = Inl NotSixUnique) \<and>
      (\<exists>e. run_app I designs selected generate_pressed blocks user_input draw_input min_hits
             jackpot_amount = Inl e)"
    if bad: "\<not> (\<exists>ns. parse_numbers I draw_input = Some ns \<and> length ns = 6 \<and> distinct ns)"
  proof -
    from bad have "\<not> (\<exists>ns. read_draw_numbers I draw_input = Inr ns)"
      by (simp add: read_draw_numbers_Inr_iff)
    with read_draw_numbers_cases [of I draw_input]
    have c: "read_draw_numbers I draw_input = Inl InvalidDrawnFormat \<or>
       read_draw_numbers I draw_input = Inl NotSixUnique"
      by blast
    then have "\<exists>e. run_app I designs selected generate_pressed blocks user_input draw_input
        min_hits jackpot_amount = Inl e"
      using run_app_rejects_draw by blast
    with c show ?thesis by simp
  qed
  have dup: "read_draw_numbers I (ascii ''1,1,2,3,4,5'') = Inl NotSixUnique"
    by (auto simp: read_draw_numbers_def parse_numbers_def ascii_def strip_def is_space_def
        py_int_def long_from_string_def c_isspace_def is_ascii_digit_def decimal_def Let_def)
  show ?thesis
    using rej dup read_draw_numbers_Inr_iff [of I draw_input ds]
      run_app_after_inputs [of designs I selected v_design generate_pressed user_input
        user_numbers blocks draw_input min_hits jackpot_amount]
    by blast
qed

theorem drawn_numbers_validation_witness:
  "parse_numbers example_interpreter (ascii ''1,1,2,3,4,5'') = Some [1, 1, 2, 3, 4, 5] \<and>
   read_draw_numbers example_interpreter (ascii ''1,2,3,4,5'') = Inl NotSixUnique \<and>
   read_draw_numbers example_interpreter (ascii ''1,2,3,4,5,x'') = Inl InvalidDrawnFormat \<and>
   read_draw_numbers example_interpreter (ascii ''1,2,3,4,5,'' @ [0x1E] @ ascii ''6'') =
     Inl InvalidDrawnFormat \<and>
   read_draw_numbers example_interpreter ([0xA0] @ ascii ''1, +2,3 ,-4,5_0,,'' @ [0x666, 0x85]) =
     Inr [1, 2, 3, - 4, 50, 6] \<and>
   run_app example_interpreter [ascii ''08-06-03''] (ascii ''08-06-03'') True [[1, 2, 3, 4, 5, 6]]
       (ascii ''1,2,3,4,5,6,7,8'') (ascii ''1,1,2,3,4,5'') 1 30000000
     = Inl NotSixUnique \<and>
   read_draw_numbers example_interpreter (ascii ''6, 5,4,3 ,2,1'') = Inr [6, 5, 4, 3, 2, 1] \<and>
   map_sum id (mapped_blocks \<circ> classification)
     (run_app example_interpreter [ascii ''08-06-03''] (ascii ''08-06-03'') True [[1, 2, 3, 4, 5, 6]]
        (ascii ''1,2,3,4,5,6,7,8'') (ascii ''6, 5,4,3 ,2,1'') 1 30000000)
     = Inr [[1, 2, 3, 4, 5, 6]]"
proof -
  have p: "parse_numbers example_interpreter (ascii ''1,1,2,3,4,5'') = Some [1, 1, 2, 3, 4, 5]"
    "parse_numbers example_interpreter (ascii ''6, 5,4,3 ,2,1'') = Some [6, 5, 4, 3, 2, 1]"
    by code_simp+
  have u: "read_user_numbers example_interpreter (ascii ''1,2,3,4,5,6,7,8'') =
       Inr [1, 2, 3, 4, 5, 6, 7, 8]"
    "get_v_from_description example_interpreter (ascii ''08-06-03'') = Inr 8"
    "classify_blocks [1, 2, 3, 4, 5, 6, 7, 8] [[1, 2, 3, 4, 5, 6]] =
       \<lparr>mapped_blocks = [[1, 2, 3, 4, 5, 6]], invalid_blocks = []\<rparr>"
    by code_simp+
  have f: "read_draw_numbers example_interpreter (ascii ''1,2,3,4,5'') = Inl NotSixUnique"
    "read_draw_numbers example_interpreter (ascii ''1,2,3,4,5,x'') = Inl InvalidDrawnFormat"
    "read_draw_numbers example_interpreter (ascii ''1,2,3,4,5,'' @ [0x1E] @ ascii ''6'') =
       Inl InvalidDrawnFormat"
    "read_draw_numbers example_interpreter ([0xA0] @ ascii ''1, +2,3 ,-4,5_0,,'' @ [0x666, 0x85]) =
       Inr [1, 2, 3, - 4, 50, 6]"
    by code_simp+
  show ?thesis
    using p u f
      drawn_numbers_validation [of example_interpreter "ascii ''1,1,2,3,4,5''"
        "[1, 1, 2, 3, 4, 5]" "[ascii ''08-06-03'']" "ascii ''08-06-03''" True
        "[[1, 2, 3, 4, 5, 6]]" "ascii ''1,2,3,4,5,6,7,8''" 1 30000000 8
        "[1, 2, 3, 4, 5, 6, 7, 8]"]
      drawn_numbers_validation [of example_interpreter "ascii ''6, 5,4,3 ,2,1''"
        "[6, 5, 4, 3, 2, 1]" "[ascii ''08-06-03'']" "ascii ''08-06-03''" True
        "[[1, 2, 3, 4, 5, 6]]" "ascii ''1,2,3,4,5,6,7,8''" 1 30000000 8
        "[1, 2, 3, 4, 5, 6, 7, 8]"]
    by simp
qed

end
